theory Spec2Isabelle
  imports Complex_Main "HOL-Library.Product_Lexorder"
begin

section \<open>Data model\<close>

text \<open>
  A row of the input CSV as \<open>load_data\<close> leaves it: the user, the epoch seconds
  \<open>unix_start_t\<close> (from which \<open>pd.to_datetime(..., unit='s')\<close> builds the
  \<open>datetime\<close> column) and the two coordinates. The coordinate type is a parameter.
\<close>

record ('u, 'c) ping =
  user_ID :: 'u
  unix_start_t :: int
  orig_long :: 'c
  orig_lat :: 'c

text \<open>A row of the census tract shapefile: the identifier and the polygon.\<close>

record ('g, 'geom) tract =
  GEOID :: 'g
  geometry :: 'geom

text \<open>A row of \<open>self.days_available\<close>.\<close>

record 'u days_row =
  d_user_ID :: 'u
  d_number_of_days :: nat
  d_min_visits :: nat

text \<open>
  A row of the visit count frame. The last two columns come from a left merge, so they
  are missing (\<open>NaN\<close>, here \<open>None\<close>) when the merge finds no row for the user.
\<close>

record ('u, 'g) visit_row =
  v_user_ID :: 'u
  v_GEOID :: 'g
  v_visit_count :: nat
  v_number_of_days :: "nat option"
  v_min_visits :: "nat option"

text \<open>A row of the result: the four columns selected on line 139.\<close>

record ('u, 'g) home_row =
  h_user_ID :: 'u
  h_GEOID :: 'g
  h_number_of_days :: "nat option"
  h_visit_count :: nat

text \<open>The exceptions pandas raises from \<open>idxmax\<close> of an empty series and from \<open>.loc\<close>.\<close>

datatype error = ValueError | KeyError

text \<open>
  \<open>datetime.dt.hour\<close> and \<open>datetime.dt.date\<close> of the time zone naive \<open>datetime\<close> column, the
  date as the number of days since the epoch.
\<close>

definition hour :: "('u, 'c) ping \<Rightarrow> int" where
  "hour p = (unix_start_t p div 3600) mod 24"

definition date :: "('u, 'c) ping \<Rightarrow> int" where
  "date p = unix_start_t p div 86400"

section \<open>Data frame operations\<close>

text \<open>
  A left join (\<open>merge(..., how='left')\<close>, \<open>sjoin(..., how='left')\<close>): every left row, in
  order, paired with each matching right row, or once with nothing when no right row
  matches.
\<close>

definition join_row :: "('a \<Rightarrow> 'b \<Rightarrow> bool) \<Rightarrow> 'b list \<Rightarrow> 'a \<Rightarrow> ('a \<times> 'b option) list" where
  "join_row m rs l =
     (let ms = filter (m l) rs
      in if ms = [] then [(l, None)] else map (\<lambda>r. (l, Some r)) ms)"

definition left_join :: "('a \<Rightarrow> 'b \<Rightarrow> bool) \<Rightarrow> 'a list \<Rightarrow> 'b list \<Rightarrow> ('a \<times> 'b option) list" where
  "left_join m ls rs = concat (map (join_row m rs) ls)"

section \<open>The night filter\<close>

definition filter_night_time_data ::
  "int \<Rightarrow> int \<Rightarrow> ('u, 'c) ping list \<Rightarrow> ('u, 'c) ping list" where
  "filter_night_time_data start_hour end_hour df =
     (if start_hour < end_hour
      then filter (\<lambda>p. hour p \<ge> start_hour \<and> hour p < end_hour) df
      else filter (\<lambda>p. hour p \<ge> start_hour \<or> hour p < end_hour) df)"

section \<open>Days available and the minimum number of visits\<close>

definition min_visits_table :: "(nat \<times> nat) list" where
  "min_visits_table = zip [5..<22] [2, 2, 2, 2, 2, 3, 3, 3, 3, 3, 4, 4, 4, 4, 4, 4, 4]"

text \<open>\<open>groupby('user_ID')['date'].nunique().reset_index()\<close>: groups in ascending key order.\<close>

definition nunique_dates :: "('u::linorder, 'c) ping list \<Rightarrow> ('u \<times> nat) list" where
  "nunique_dates night_data =
     map (\<lambda>u. (u, length (remdups (map date (filter (\<lambda>p. user_ID p = u) night_data)))))
         (sort (remdups (map user_ID night_data)))"

text \<open>
  Lines 78 to 84 on one row: the week formula above 21 days, the merged value otherwise,
  then \<open>fillna(0).astype(int)\<close>. The source divides in floating point; the model divides
  exactly.
\<close>

definition fill_min_visits :: "nat \<Rightarrow> nat option \<Rightarrow> nat" where
  "fill_min_visits d merged =
     (case (if d > 21 then Some (nat \<lceil>real d / 7\<rceil>) else merged) of
        None \<Rightarrow> 0
      | Some m \<Rightarrow> m)"

text \<open>Lines 75 to 84: the merge with the table on \<open>number_of_days\<close>, then the row-wise rule.\<close>

definition attach_min_visits :: "('u \<times> nat) list \<Rightarrow> 'u days_row list" where
  "attach_min_visits days =
     map (\<lambda>((u, d), t). \<lparr>d_user_ID = u, d_number_of_days = d,
                          d_min_visits = fill_min_visits d (map_option snd t)\<rparr>)
         (left_join (\<lambda>(u, d) (k, v). d = k) days min_visits_table)"

definition calculate_days_available :: "('u::linorder, 'c) ping list \<Rightarrow> 'u days_row list" where
  "calculate_days_available night_data = attach_min_visits (nunique_dates night_data)"

section \<open>Spatial join and visit counts\<close>

text \<open>
  \<open>gpd.sjoin(geo_night_data, tracts, how='left', predicate='within')\<close>. The geometric test
  of a point against a polygon is the parameter \<open>is_within\<close>; the point of a ping is
  \<open>Point(orig_long, orig_lat)\<close>. The visit counts depend on the joined rows only through
  how many there are of each key, not on their order.
\<close>

definition spatial_join ::
  "('c \<times> 'c \<Rightarrow> 'geom \<Rightarrow> bool) \<Rightarrow> ('u, 'c) ping list \<Rightarrow> ('g, 'geom) tract list
     \<Rightarrow> (('u, 'c) ping \<times> ('g, 'geom) tract option) list" where
  "spatial_join is_within night_data tracts =
     left_join (\<lambda>p z. is_within (orig_long p, orig_lat p) (geometry z)) night_data tracts"

text \<open>The group keys of the joined rows; \<open>groupby\<close> drops a row whose \<open>GEOID\<close> is missing.\<close>

definition group_keys ::
  "(('u, 'c) ping \<times> ('g, 'geom) tract option) list \<Rightarrow> ('u \<times> 'g) list" where
  "group_keys joined =
     concat (map (\<lambda>(p, zo). case zo of None \<Rightarrow> [] | Some z \<Rightarrow> [(user_ID p, GEOID z)]) joined)"

text \<open>
  \<open>groupby(['user_ID', 'GEOID']).size().reset_index(name='visit_count')\<close>: one row per key,
  keys ascending, with the number of rows of the group.
\<close>

definition group_sizes ::
  "(('u::linorder, 'c) ping \<times> ('g::linorder, 'geom) tract option) list \<Rightarrow> (('u \<times> 'g) \<times> nat) list" where
  "group_sizes joined =
     map (\<lambda>k. (k, count_list (group_keys joined) k)) (sort (remdups (group_keys joined)))"

definition count_visits ::
  "(('u::linorder, 'c) ping \<times> ('g::linorder, 'geom) tract option) list \<Rightarrow> 'u days_row list
     \<Rightarrow> ('u, 'g) visit_row list" where
  "count_visits joined days_available =
     map (\<lambda>(((u, g), n), d).
            \<lparr>v_user_ID = u, v_GEOID = g, v_visit_count = n,
             v_number_of_days = map_option d_number_of_days d,
             v_min_visits = map_option d_min_visits d\<rparr>)
         (left_join (\<lambda>((u, g), n) d. u = d_user_ID d) (group_sizes joined) days_available)"

section \<open>Selecting the home location\<close>

text \<open>The row test of line 127; a comparison with a missing value is false.\<close>

definition meets_min_visits :: "('u, 'g) visit_row \<Rightarrow> bool" where
  "meets_min_visits r = (case v_min_visits r of None \<Rightarrow> False | Some m \<Rightarrow> v_visit_count r \<ge> m)"

text \<open>
  \<open>Series.idxmax\<close> on a series of (index label, value) pairs: the label of the first
  occurrence of the maximum, and \<open>ValueError\<close> on an empty series.
\<close>

definition idxmax :: "(nat \<times> nat) list \<Rightarrow> error + nat" where
  "idxmax s =
     (case s of
        [] \<Rightarrow> Inl ValueError
      | x # xs \<Rightarrow> Inr (fst (foldl (\<lambda>best c. if snd c > snd best then c else best) x xs)))"

text \<open>Running a list of steps, stopping at the first exception.\<close>

fun collect :: "(error + 'a) list \<Rightarrow> error + 'a list" where
  "collect [] = Inr []"
| "collect (x # xs) =
     (case x of
        Inl e \<Rightarrow> Inl e
      | Inr a \<Rightarrow> (case collect xs of Inl e \<Rightarrow> Inl e | Inr as \<Rightarrow> Inr (a # as)))"

text \<open>
  \<open>groupby('user_ID')['visit_count'].idxmax()\<close> on a frame of (index label, row) pairs:
  for each user, in ascending order, the label that \<open>idxmax\<close> gives for the group.
\<close>

definition groupby_idxmax :: "(nat \<times> ('u::linorder, 'g) visit_row) list \<Rightarrow> error + nat list" where
  "groupby_idxmax frame =
     collect (map (\<lambda>u. idxmax (map (\<lambda>(i, r). (i, v_visit_count r))
                                    (filter (\<lambda>(i, r). v_user_ID r = u) frame)))
                  (sort (remdups (map (\<lambda>(i, r). v_user_ID r) frame))))"

text \<open>\<open>frame.loc[labels]\<close>: the row of each label, and \<open>KeyError\<close> for a label not in the index.\<close>

definition loc :: "(nat \<times> 'a) list \<Rightarrow> nat list \<Rightarrow> error + 'a list" where
  "loc frame labels =
     collect (map (\<lambda>i. case map_of frame i of None \<Rightarrow> Inl KeyError | Some r \<Rightarrow> Inr r) labels)"

text \<open>The column selection \<open>[['user_ID', 'GEOID', 'number_of_days', 'visit_count']]\<close> of line 139.\<close>

definition select_columns :: "('u, 'g) visit_row \<Rightarrow> ('u, 'g) home_row" where
  "select_columns r =
     \<lparr>h_user_ID = v_user_ID r, h_GEOID = v_GEOID r,
      h_number_of_days = v_number_of_days r, h_visit_count = v_visit_count r\<rparr>"

text \<open>
  \<open>filter_home_locations\<close>. The rows of \<open>visit_counts\<close> carry the index labels
  \<open>0, 1, ...\<close> that the merge gave them. The result is the set of users the loop of
  lines 133 and 134 prints a message for, with the returned frame.
\<close>

definition filter_home_locations ::
  "('u::linorder, 'g) visit_row list \<Rightarrow> error + ('u set \<times> ('u, 'g) home_row list)" where
  "filter_home_locations visit_counts =
     (let home_locations = filter (\<lambda>(i, r). meets_min_visits r) (enumerate 0 visit_counts);
          users_with_nighttime_data = remdups (map v_user_ID visit_counts);
          users_with_home_locations = remdups (map (\<lambda>(i, r). v_user_ID r) home_locations);
          users_without_home_locations =
            set users_with_nighttime_data - set users_with_home_locations
      in case groupby_idxmax home_locations of
           Inl e \<Rightarrow> Inl e
         | Inr labels \<Rightarrow>
             (case loc home_locations labels of
                Inl e \<Rightarrow> Inl e
              | Inr rows \<Rightarrow>
                  Inr (users_without_home_locations, map select_columns rows)))"

section \<open>The whole run\<close>

text \<open>
  \<open>run\<close> without the file input and output: \<open>df\<close> and \<open>tracts\<close> are what \<open>load_data\<close>
  read, and the result is the frame that \<open>save_results\<close> writes. The attributes
  \<open>self.night_data\<close> and \<open>self.days_available\<close> that the methods set and read are passed
  from stage to stage.
\<close>

definition run ::
  "('c \<times> 'c \<Rightarrow> 'geom \<Rightarrow> bool) \<Rightarrow> int \<Rightarrow> int \<Rightarrow> ('u::linorder, 'c) ping list
     \<Rightarrow> ('g::linorder, 'geom) tract list \<Rightarrow> error + ('u set \<times> ('u, 'g) home_row list)" where
  "run is_within start_hour end_hour df tracts =
     (let night_data = filter_night_time_data start_hour end_hour df;
          days_available = calculate_days_available night_data;
          joined = spatial_join is_within night_data tracts;
          visit_counts = count_visits joined days_available
      in filter_home_locations visit_counts)"

section \<open>Specification side\<close>

text \<open>
  The threshold as the specification words it: 2 for 5 to 9 days, 3 for 10 to 14, 4 for
  15 to 21, the number of weeks rounded up above 21, and 0 below 5.
\<close>

definition min_visits_spec :: "nat \<Rightarrow> nat" where
  "min_visits_spec d =
     (if 5 \<le> d \<and> d \<le> 9 then 2
      else if 10 \<le> d \<and> d \<le> 14 then 3
      else if 15 \<le> d \<and> d \<le> 21 then 4
      else if d > 21 then nat \<lceil>real d / 7\<rceil>
      else 0)"

text \<open>The number of distinct dates among the night pings of a user.\<close>

definition days_of :: "('u, 'c) ping list \<Rightarrow> 'u \<Rightarrow> nat" where
  "days_of night_data u = card (date ` {p \<in> set night_data. user_ID p = u})"

text \<open>The tracts whose polygon a ping lies within, in the order of the tract frame.\<close>

definition zones_of ::
  "('c \<times> 'c \<Rightarrow> 'geom \<Rightarrow> bool) \<Rightarrow> ('g, 'geom) tract list \<Rightarrow> ('u, 'c) ping \<Rightarrow> ('g, 'geom) tract list" where
  "zones_of is_within tracts p = filter (\<lambda>z. is_within (orig_long p, orig_lat p) (geometry z)) tracts"

text \<open>
  Row \<open>i\<close> of the visit counts is the best row of user \<open>u\<close>: it is a row of \<open>u\<close> that meets
  the threshold, no such row of \<open>u\<close> has a larger count, and every earlier one has a
  smaller count.
\<close>

definition is_best :: "('u, 'g) visit_row list \<Rightarrow> 'u \<Rightarrow> nat \<Rightarrow> bool" where
  "is_best vc u i \<longleftrightarrow>
     i < length vc \<and> v_user_ID (vc ! i) = u \<and> meets_min_visits (vc ! i) \<and>
     (\<forall>j < length vc. v_user_ID (vc ! j) = u \<and> meets_min_visits (vc ! j) \<longrightarrow>
        v_visit_count (vc ! j) \<le> v_visit_count (vc ! i) \<and>
        (j < i \<longrightarrow> v_visit_count (vc ! j) < v_visit_count (vc ! i)))"

section \<open>Sample data\<close>

text \<open>Concrete pings with numbered users and integer coordinates, for worked examples.\<close>

definition ping_at :: "nat \<Rightarrow> int \<Rightarrow> int \<Rightarrow> int \<Rightarrow> (nat, int) ping" where
  "ping_at u t x y = \<lparr>user_ID = u, unix_start_t = t, orig_long = x, orig_lat = y\<rparr>"

text \<open>Rectangular tracts \<open>(x0, y0, x1, y1)\<close>; a point is within one when strictly inside.\<close>

definition within_box :: "int \<times> int \<Rightarrow> int \<times> int \<times> int \<times> int \<Rightarrow> bool" where
  "within_box pt box =
     (case pt of (x, y) \<Rightarrow> case box of (x0, y0, x1, y1) \<Rightarrow> x0 < x \<and> x < x1 \<and> y0 < y \<and> y < y1)"

definition box_tract :: "nat \<Rightarrow> int \<times> int \<times> int \<times> int \<Rightarrow> (nat, int \<times> int \<times> int \<times> int) tract" where
  "box_tract g box = \<lparr>GEOID = g, geometry = box\<rparr>"

text \<open>
  Four users. User 1 has three night pings on two dates, two of them in the overlap of
  tracts 20 and 10; user 2 has one night ping outside every tract; user 3 has only a
  daytime ping; user 4 has one night ping in tract 30.
\<close>

definition sample_tracts :: "(nat, int \<times> int \<times> int \<times> int) tract list" where
  "sample_tracts =
     [box_tract 20 (0, 0, 10, 10), box_tract 10 (5, 5, 20, 20), box_tract 30 (100, 100, 110, 110)]"

definition sample_df :: "(nat, int) ping list" where
  "sample_df =
     [ping_at 1 82800 1 1, ping_at 1 169200 7 7, ping_at 1 169205 7 7,
      ping_at 2 82800 50 50, ping_at 3 40000 1 1, ping_at 4 82800 102 102]"

text \<open>
  A visit count frame written by hand: user 1 with 6 days (threshold 2), 6 visits in
  tract 10 and 4 in tract 20; user 2 with 21 days (threshold 4) and 3 visits in tract 30.
\<close>

definition sample_visits :: "(nat, nat) visit_row list" where
  "sample_visits =
     [\<lparr>v_user_ID = 1, v_GEOID = 10, v_visit_count = 6, v_number_of_days = Some 6, v_min_visits = Some 2\<rparr>,
      \<lparr>v_user_ID = 1, v_GEOID = 20, v_visit_count = 4, v_number_of_days = Some 6, v_min_visits = Some 2\<rparr>,
      \<lparr>v_user_ID = 2, v_GEOID = 30, v_visit_count = 3, v_number_of_days = Some 21, v_min_visits = Some 4\<rparr>]"

section \<open>Facts about left joins\<close>

lemma join_row_Some [simp]:
  "(l', Some r) \<in> set (join_row m rs l) \<longleftrightarrow> l' = l \<and> r \<in> set rs \<and> m l r"
  by (auto simp: join_row_def Let_def filter_empty_conv)

lemma join_row_None [simp]:
  "(l', None) \<in> set (join_row m rs l) \<longleftrightarrow> l' = l \<and> (\<forall>r \<in> set rs. \<not> m l r)"
  by (auto simp: join_row_def Let_def filter_empty_conv)

lemma left_join_Some [simp]:
  "(l, Some r) \<in> set (left_join m ls rs) \<longleftrightarrow> l \<in> set ls \<and> r \<in> set rs \<and> m l r"
  by (auto simp: left_join_def)

lemma left_join_None [simp]:
  "(l, None) \<in> set (left_join m ls rs) \<longleftrightarrow> l \<in> set ls \<and> (\<forall>r \<in> set rs. \<not> m l r)"
  by (auto simp: left_join_def)

section \<open>The night window\<close>



section \<open>The threshold\<close>

lemma ceil7: "nat \<lceil>real d / 7\<rceil> = (d + 6) div 7"
proof -
  have "\<lceil>real d / 7\<rceil> = \<lceil>real_of_int (int d) / real_of_int 7\<rceil>" by simp
  also have "\<dots> = - ((- int d) div 7)" by (simp only: ceiling_divide_eq_div)
  also have "\<dots> = int ((d + 6) div 7)" by (simp add: zdiv_int)
  finally show ?thesis by simp
qed

lemma min_visits_table_eq:
  "min_visits_table =
     [(5, 2), (6, 2), (7, 2), (8, 2), (9, 2), (10, 3), (11, 3), (12, 3), (13, 3), (14, 3),
      (15, 4), (16, 4), (17, 4), (18, 4), (19, 4), (20, 4), (21, 4)]"
  unfolding min_visits_table_def by code_simp

lemma table_lookup:
  "filter (\<lambda>(k, v). d = k) min_visits_table =
     (if d < 5 \<or> 21 < d then [] else [(d, if d \<le> 9 then 2 else if d \<le> 14 then 3 else 4)])"
  unfolding min_visits_table_eq by (auto, arith)

lemma join_row_table:
  "join_row (\<lambda>(u, d) (k, v). d = k) min_visits_table (u, d) =
     [((u, d), if d < 5 \<or> 21 < d then None
               else Some (d, if d \<le> 9 then 2 else if d \<le> 14 then 3 else 4))]"
  by (simp add: join_row_def table_lookup)

lemma attach_min_visits_map:
  "attach_min_visits days =
     map (\<lambda>(u, d). \<lparr>d_user_ID = u, d_number_of_days = d,
                      d_min_visits = fill_min_visits d
                        (if d < 5 \<or> 21 < d then None
                         else Some (if d \<le> 9 then 2 else if d \<le> 14 then 3 else 4))\<rparr>) days"
  unfolding attach_min_visits_def left_join_def
  by (induction days) (auto simp: join_row_table)

lemma attach_min_visits_spec:
  "attach_min_visits days =
     map (\<lambda>(u, d). \<lparr>d_user_ID = u, d_number_of_days = d, d_min_visits = min_visits_spec d\<rparr>) days"
proof -
  have pw: "fill_min_visits d
              (if d < 5 \<or> 21 < d then None
               else Some (if d \<le> 9 then 2 else if d \<le> 14 then 3 else 4)) = min_visits_spec d" for d
    by (simp add: fill_min_visits_def min_visits_spec_def)
  show ?thesis by (simp add: attach_min_visits_map pw)
qed

text \<open>
  C2. The computed \<open>min_visits\<close> is the piecewise function of the day count: 2 for 5 to
  9 days, 3 for 10 to 14, 4 for 15 to 21, \<open>ceil (d / 7)\<close> above 21, and the integer 0 below
  5. Every row of the frame keeps its user and day count, so this holds for every day
  count, and in particular for every row of \<open>calculate_days_available\<close>.
\<close>

theorem min_visits_piecewise:
  "attach_min_visits days =
     map (\<lambda>(u, d). \<lparr>d_user_ID = u, d_number_of_days = d, d_min_visits = min_visits_spec d\<rparr>) days
   \<and> (\<forall>r \<in> set (calculate_days_available night_data).
          d_min_visits r = min_visits_spec (d_number_of_days r))"
  unfolding calculate_days_available_def by (auto simp: attach_min_visits_spec)

theorem min_visits_piecewise_witness:
  "attach_min_visits [(1::nat, 4), (2, 5), (3, 9), (4, 10), (5, 14), (6, 15), (7, 21), (8, 22), (9, 30)] =
     [\<lparr>d_user_ID = 1, d_number_of_days = 4, d_min_visits = 0\<rparr>,
      \<lparr>d_user_ID = 2, d_number_of_days = 5, d_min_visits = 2\<rparr>,
      \<lparr>d_user_ID = 3, d_number_of_days = 9, d_min_visits = 2\<rparr>,
      \<lparr>d_user_ID = 4, d_number_of_days = 10, d_min_visits = 3\<rparr>,
      \<lparr>d_user_ID = 5, d_number_of_days = 14, d_min_visits = 3\<rparr>,
      \<lparr>d_user_ID = 6, d_number_of_days = 15, d_min_visits = 4\<rparr>,
      \<lparr>d_user_ID = 7, d_number_of_days = 21, d_min_visits = 4\<rparr>,
      \<lparr>d_user_ID = 8, d_number_of_days = 22, d_min_visits = 4\<rparr>,
      \<lparr>d_user_ID = 9, d_number_of_days = 30, d_min_visits = 5\<rparr>]
   \<and> calculate_days_available [ping_at 1 82800 0 0] =
       [\<lparr>d_user_ID = 1, d_number_of_days = 1, d_min_visits = 0\<rparr>]
   \<and> min_visits_spec 1 = 0"
proof -
  have c: "calculate_days_available [ping_at 1 82800 0 0] =
       [\<lparr>d_user_ID = 1, d_number_of_days = 1, d_min_visits = 0\<rparr>]"
    by (simp add: calculate_days_available_def nunique_dates_def attach_min_visits_spec
        min_visits_spec_def ping_at_def)
  from min_visits_piecewise
    [of "[(1::nat, 4), (2, 5), (3, 9), (4, 10), (5, 14), (6, 15), (7, 21), (8, 22), (9, 30)]"
        "[ping_at 1 82800 0 0]"] c
  show ?thesis by (simp add: min_visits_spec_def)
qed

section \<open>Days available\<close>

lemma filter_eq_distinct:
  "distinct xs \<Longrightarrow> u \<in> set xs \<Longrightarrow> filter (\<lambda>x. u = x) xs = [u]"
  by (induction xs) (auto simp: filter_empty_conv)

lemma left_join_unique:
  "(\<And>l. l \<in> set ls \<Longrightarrow> filter (m l) rs = [f l]) \<Longrightarrow>
   left_join m ls rs = map (\<lambda>l. (l, Some (f l))) ls"
  unfolding left_join_def by (induction ls) (auto simp: join_row_def)

lemma nunique_dates_eq:
  "nunique_dates night_data =
     map (\<lambda>u. (u, days_of night_data u)) (sort (remdups (map user_ID night_data)))"
proof -
  have "length (remdups (map date (filter (\<lambda>p. user_ID p = u) night_data))) = days_of night_data u" for u
    by (simp add: length_remdups_card_conv days_of_def)
  then show ?thesis by (simp add: nunique_dates_def)
qed

lemma calculate_days_available_eq:
  "calculate_days_available night_data =
     map (\<lambda>u. \<lparr>d_user_ID = u, d_number_of_days = days_of night_data u,
               d_min_visits = min_visits_spec (days_of night_data u)\<rparr>)
         (sort (remdups (map user_ID night_data)))"
  by (simp add: calculate_days_available_def attach_min_visits_spec nunique_dates_eq)


lemma night_sample:
  "filter_night_time_data 22 6 sample_df =
     [ping_at 1 82800 1 1, ping_at 1 169200 7 7, ping_at 1 169205 7 7,
      ping_at 2 82800 50 50, ping_at 4 82800 102 102]"
  by (simp add: filter_night_time_data_def sample_df_def hour_def ping_at_def)

lemma days_sample:
  "calculate_days_available (filter_night_time_data 22 6 sample_df) =
     [\<lparr>d_user_ID = 1, d_number_of_days = 2, d_min_visits = 0\<rparr>,
      \<lparr>d_user_ID = 2, d_number_of_days = 1, d_min_visits = 0\<rparr>,
      \<lparr>d_user_ID = 4, d_number_of_days = 1, d_min_visits = 0\<rparr>]"
  unfolding night_sample
  by (simp add: calculate_days_available_def nunique_dates_def attach_min_visits_spec
      min_visits_spec_def ping_at_def date_def)




section \<open>Joined rows and visit counts\<close>

lemma spatial_join_Nil [simp]: "spatial_join w [] tracts = []"
  by (simp add: spatial_join_def left_join_def)

lemma spatial_join_Cons:
  "spatial_join w (p # ps) tracts =
     (if zones_of w tracts p = [] then [(p, None)] else map (\<lambda>z. (p, Some z)) (zones_of w tracts p))
     @ spatial_join w ps tracts"
  by (simp add: spatial_join_def left_join_def join_row_def zones_of_def)

lemma group_keys_append [simp]: "group_keys (xs @ ys) = group_keys xs @ group_keys ys"
  by (simp add: group_keys_def)

lemma group_keys_Nil [simp]: "group_keys [] = []"
  by (simp add: group_keys_def)

lemma group_keys_matched [simp]:
  "group_keys (map (\<lambda>z. (p, Some z)) zs) = map (\<lambda>z. (user_ID p, GEOID z)) zs"
  by (induction zs) (simp_all add: group_keys_def)

lemma group_keys_unmatched [simp]: "group_keys [(p, None)] = []"
  by (simp add: group_keys_def)

lemma group_keys_spatial_join:
  "group_keys (spatial_join w night_data tracts) =
     concat (map (\<lambda>p. map (\<lambda>z. (user_ID p, GEOID z)) (zones_of w tracts p)) night_data)"
  by (induction night_data) (simp_all add: spatial_join_Cons)

lemma count_list_append [simp]: "count_list (xs @ ys) k = count_list xs k + count_list ys k"
  by (induction xs) simp_all

lemma count_list_concat_map: "count_list (concat (map f xs)) k = (\<Sum>x\<leftarrow>xs. count_list (f x) k)"
  by (induction xs) simp_all

lemma count_list_key:
  "count_list (map (\<lambda>z. (u', GEOID z)) zs) (u, g) =
     (if u' = u then length (filter (\<lambda>z. GEOID z = g) zs) else 0)"
  by (induction zs) auto

text \<open>The number of joined rows of a (user, tract identifier) pair.\<close>

lemma count_group_keys:
  "count_list (group_keys (spatial_join w night_data tracts)) (u, g) =
     (\<Sum>p\<leftarrow>night_data. if user_ID p = u
                         then length (filter (\<lambda>z. GEOID z = g) (zones_of w tracts p)) else 0)"
  by (simp add: group_keys_spatial_join count_list_concat_map count_list_key)

lemma group_keys_user:
  "(u, g) \<in> set (group_keys (spatial_join w night_data tracts)) \<Longrightarrow> u \<in> user_ID ` set night_data"
  by (auto simp: group_keys_spatial_join)

lemma days_row_lookup:
  assumes "u \<in> user_ID ` set night_data"
  shows "filter (\<lambda>d. u = d_user_ID d) (calculate_days_available night_data) =
     [\<lparr>d_user_ID = u, d_number_of_days = days_of night_data u,
       d_min_visits = min_visits_spec (days_of night_data u)\<rparr>]"
proof -
  have "filter (\<lambda>x. u = x) (sort (remdups (map user_ID night_data))) = [u]"
    using assms by (intro filter_eq_distinct) auto
  then show ?thesis
    by (simp add: calculate_days_available_eq filter_map comp_def)
qed

lemma count_visits_eq:
  "count_visits (spatial_join w night_data tracts) (calculate_days_available night_data) =
     map (\<lambda>((u, g), n). \<lparr>v_user_ID = u, v_GEOID = g, v_visit_count = n,
                          v_number_of_days = Some (days_of night_data u),
                          v_min_visits = Some (min_visits_spec (days_of night_data u))\<rparr>)
         (group_sizes (spatial_join w night_data tracts))"
proof -
  let ?f = "\<lambda>l. case l of ((u, g), n) \<Rightarrow> \<lparr>d_user_ID = u, d_number_of_days = days_of night_data u,
       d_min_visits = min_visits_spec (days_of night_data u)\<rparr>"
  have "left_join (\<lambda>((u, g), n) d. u = d_user_ID d) (group_sizes (spatial_join w night_data tracts))
          (calculate_days_available night_data) =
        map (\<lambda>l. (l, Some (?f l))) (group_sizes (spatial_join w night_data tracts))"
  proof (rule left_join_unique)
    fix l assume "l \<in> set (group_sizes (spatial_join w night_data tracts))"
    then obtain u g n where l: "l = ((u, g), n)" and "(u, g) \<in> set (group_keys (spatial_join w night_data tracts))"
      by (auto simp: group_sizes_def)
    then have "u \<in> user_ID ` set night_data" by (auto dest: group_keys_user)
    then show "filter ((\<lambda>((u, g), n) d. u = d_user_ID d) l) (calculate_days_available night_data) = [?f l]"
      by (simp add: l days_row_lookup)
  qed
  then show ?thesis
    by (simp add: count_visits_def split_def)
qed

lemma joined_sample:
  "spatial_join within_box (filter_night_time_data 22 6 sample_df) sample_tracts =
     [(ping_at 1 82800 1 1, Some (box_tract 20 (0, 0, 10, 10))),
      (ping_at 1 169200 7 7, Some (box_tract 20 (0, 0, 10, 10))),
      (ping_at 1 169200 7 7, Some (box_tract 10 (5, 5, 20, 20))),
      (ping_at 1 169205 7 7, Some (box_tract 20 (0, 0, 10, 10))),
      (ping_at 1 169205 7 7, Some (box_tract 10 (5, 5, 20, 20))),
      (ping_at 2 82800 50 50, None),
      (ping_at 4 82800 102 102, Some (box_tract 30 (100, 100, 110, 110)))]"
  unfolding night_sample
  by (simp add: spatial_join_Cons zones_of_def sample_tracts_def within_box_def box_tract_def ping_at_def)

lemma group_sizes_sample:
  "group_sizes (spatial_join within_box (filter_night_time_data 22 6 sample_df) sample_tracts) =
     [((1, 10), 2), ((1, 20), 3), ((4, 30), 1)]"
  unfolding joined_sample
  by (simp add: group_sizes_def group_keys_def box_tract_def ping_at_def)

lemma visit_counts_sample:
  "count_visits (spatial_join within_box (filter_night_time_data 22 6 sample_df) sample_tracts)
     (calculate_days_available (filter_night_time_data 22 6 sample_df)) =
   [\<lparr>v_user_ID = 1, v_GEOID = 10, v_visit_count = 2, v_number_of_days = Some 2, v_min_visits = Some 0\<rparr>,
    \<lparr>v_user_ID = 1, v_GEOID = 20, v_visit_count = 3, v_number_of_days = Some 2, v_min_visits = Some 0\<rparr>,
    \<lparr>v_user_ID = 4, v_GEOID = 30, v_visit_count = 1, v_number_of_days = Some 1, v_min_visits = Some 0\<rparr>]"
  unfolding group_sizes_sample days_sample count_visits_def
  by (simp add: left_join_def join_row_def)

text \<open>
  C7. Every row of the visit count frame carries the \<open>min_visits\<close> (and the day count) of
  the row of its user in the days available frame; that row exists, and all rows of one
  user carry the same threshold.
\<close>

theorem min_visits_per_user:
  assumes "r \<in> set (count_visits (spatial_join w night_data tracts) (calculate_days_available night_data))"
  shows "(\<exists>d \<in> set (calculate_days_available night_data).
            d_user_ID d = v_user_ID r \<and> v_min_visits r = Some (d_min_visits d)
            \<and> v_number_of_days r = Some (d_number_of_days d))
       \<and> (\<forall>d \<in> set (calculate_days_available night_data).
            d_user_ID d = v_user_ID r \<longrightarrow> v_min_visits r = Some (d_min_visits d))
       \<and> (\<forall>r' \<in> set (count_visits (spatial_join w night_data tracts) (calculate_days_available night_data)).
            v_user_ID r' = v_user_ID r \<longrightarrow> v_min_visits r' = v_min_visits r)"
proof -
  from assms obtain u g n where
    r: "r = \<lparr>v_user_ID = u, v_GEOID = g, v_visit_count = n,
                          v_number_of_days = Some (days_of night_data u),
                          v_min_visits = Some (min_visits_spec (days_of night_data u))\<rparr>"
    and k: "(u, g) \<in> set (group_keys (spatial_join w night_data tracts))"
    by (auto simp: count_visits_eq group_sizes_def)
  from k have u: "u \<in> user_ID ` set night_data" by (rule group_keys_user)
  have 1: "\<exists>d \<in> set (calculate_days_available night_data).
            d_user_ID d = v_user_ID r \<and> v_min_visits r = Some (d_min_visits d)
            \<and> v_number_of_days r = Some (d_number_of_days d)"
    using u by (auto simp: r calculate_days_available_eq)
  have 2: "\<forall>d \<in> set (calculate_days_available night_data).
            d_user_ID d = v_user_ID r \<longrightarrow> v_min_visits r = Some (d_min_visits d)"
    by (auto simp: r calculate_days_available_eq)
  have 3: "\<forall>r' \<in> set (count_visits (spatial_join w night_data tracts) (calculate_days_available night_data)).
            v_user_ID r' = v_user_ID r \<longrightarrow> v_min_visits r' = v_min_visits r"
    unfolding count_visits_eq by (auto simp: r)
  from 1 2 3 show ?thesis by blast
qed

theorem min_visits_per_user_witness:
  "\<lparr>v_user_ID = 1, v_GEOID = 10, v_visit_count = 2, v_number_of_days = Some 2, v_min_visits = Some 0\<rparr>
     \<in> set (count_visits (spatial_join within_box (filter_night_time_data 22 6 sample_df) sample_tracts)
               (calculate_days_available (filter_night_time_data 22 6 sample_df)))
   \<and> (\<exists>d \<in> set (calculate_days_available (filter_night_time_data 22 6 sample_df)).
         d_user_ID d = 1 \<and> Some (0::nat) = Some (d_min_visits d))
   \<and> map v_min_visits
         (filter (\<lambda>r. v_user_ID r = 1)
           (count_visits (spatial_join within_box (filter_night_time_data 22 6 sample_df) sample_tracts)
             (calculate_days_available (filter_night_time_data 22 6 sample_df)))) = [Some 0, Some 0]"
proof -
  have m: "\<lparr>v_user_ID = 1, v_GEOID = 10, v_visit_count = 2, v_number_of_days = Some 2, v_min_visits = Some 0\<rparr>
     \<in> set (count_visits (spatial_join within_box (filter_night_time_data 22 6 sample_df) sample_tracts)
               (calculate_days_available (filter_night_time_data 22 6 sample_df)))"
    unfolding visit_counts_sample by simp
  have f: "map v_min_visits
         (filter (\<lambda>r. v_user_ID r = 1)
           (count_visits (spatial_join within_box (filter_night_time_data 22 6 sample_df) sample_tracts)
             (calculate_days_available (filter_night_time_data 22 6 sample_df)))) = [Some 0, Some 0]"
    unfolding visit_counts_sample by simp
  from min_visits_per_user [OF m]
  have "\<exists>d \<in> set (calculate_days_available (filter_night_time_data 22 6 sample_df)).
         d_user_ID d = 1 \<and> Some (0::nat) = Some (d_min_visits d)"
    by (simp del: set_simps) blast
  with m f show ?thesis by blast
qed

section \<open>The selection never raises and picks the first maximum\<close>

lemma collect_all2:
  "(\<And>x. x \<in> set xs \<Longrightarrow> \<exists>y. f x = Inr y \<and> P x y) \<Longrightarrow>
   \<exists>ys. collect (map f xs) = Inr ys \<and> list_all2 P xs ys"
proof (induction xs)
  case Nil
  then show ?case by simp
next
  case (Cons x xs)
  then obtain y where y: "f x = Inr y" "P x y" by auto
  from Cons obtain ys where ys: "collect (map f xs) = Inr ys" "list_all2 P xs ys" by auto
  show ?case using y ys by (intro exI[of _ "y # ys"]) simp
qed

lemma foldl_best:
  fixes x :: "nat \<times> nat"
  defines "step \<equiv> (\<lambda>best c. if snd c > snd best then c else best)"
  shows "\<exists>ys zs. x # xs = ys @ foldl step x xs # zs
           \<and> (\<forall>c \<in> set ys. snd c < snd (foldl step x xs))
           \<and> (\<forall>c \<in> set zs. snd c \<le> snd (foldl step x xs))"
proof (induction xs rule: rev_induct)
  case Nil
  show ?case by (intro exI[of _ "[]"]) simp
next
  case (snoc c xs)
  let ?m = "foldl step x xs"
  from snoc obtain ys zs where d: "x # xs = ys @ ?m # zs"
    and lt: "\<forall>c \<in> set ys. snd c < snd ?m" and le: "\<forall>c \<in> set zs. snd c \<le> snd ?m" by blast
  show ?case
  proof (cases "snd c > snd ?m")
    case True
    then have m: "foldl step x (xs @ [c]) = c" by (simp add: step_def)
    have "\<forall>b \<in> set (x # xs). snd b < snd c"
      unfolding d using lt le True by auto
    then show ?thesis unfolding m
      by (intro exI[of _ "x # xs"] exI[of _ "[]"]) simp
  next
    case False
    then have m: "foldl step x (xs @ [c]) = ?m" by (simp add: step_def)
    show ?thesis unfolding m using d lt le False
      by (intro exI[of _ ys] exI[of _ "zs @ [c]"]) auto
  qed
qed

lemma idxmax_first:
  assumes "s \<noteq> []"
  shows "\<exists>ys b zs. s = ys @ b # zs \<and> idxmax s = Inr (fst b)
           \<and> (\<forall>c \<in> set ys. snd c < snd b) \<and> (\<forall>c \<in> set zs. snd c \<le> snd b)"
proof -
  from assms obtain x xs where s: "s = x # xs" by (cases s) auto
  from foldl_best[of x xs] show ?thesis unfolding s idxmax_def by (simp only: list.case) blast
qed

lemma map_snd_filter_enumerate:
  "map snd (filter (\<lambda>(i, r). P r) (enumerate n xs)) = filter P xs"
  by (induction xs arbitrary: n) auto

lemma sorted_fst_enumerate: "sorted_wrt (<) (map fst (filter Q (enumerate n xs)))"
proof -
  have "sorted_wrt (<) (map fst (enumerate n xs))" by simp
  then have "sorted_wrt (\<lambda>a b. fst a < fst b) (enumerate n xs)" by (simp only: sorted_wrt_map)
  then have "sorted_wrt (\<lambda>a b. fst a < fst b) (filter Q (enumerate n xs))" by (rule sorted_wrt_filter)
  then show ?thesis by (simp only: sorted_wrt_map)
qed


lemma group_idxmax:
  fixes vc :: "('u, 'g) visit_row list"
  defines "home \<equiv> filter (\<lambda>(i, r). meets_min_visits r) (enumerate 0 vc)"
  assumes u: "u \<in> set (map v_user_ID (filter meets_min_visits vc))"
  shows "\<exists>i. idxmax (map (\<lambda>(i, r). (i, v_visit_count r)) (filter (\<lambda>(i, r). v_user_ID r = u) home)) = Inr i
             \<and> is_best vc u i"
proof -
  let ?f = "\<lambda>(i, r). (i, v_visit_count r)"
  let ?g = "filter (\<lambda>(i, r). v_user_ID r = u) home"
  have mem: "(j, q) \<in> set ?g \<longleftrightarrow>
      j < length vc \<and> q = vc ! j \<and> meets_min_visits (vc ! j) \<and> v_user_ID (vc ! j) = u" for j q
    unfolding home_def by (auto simp: in_set_enumerate_eq)
  have srt: "sorted_wrt (<) (map fst ?g)"
    unfolding home_def filter_filter by (rule sorted_fst_enumerate)
  from u obtain k where k: "k < length vc" "meets_min_visits (vc ! k)" "v_user_ID (vc ! k) = u"
    by (auto simp: in_set_conv_nth)
  then have "(k, vc ! k) \<in> set ?g" using mem[of k "vc ! k"] by blast
  then have "?g \<noteq> []" by (metis empty_iff list.set(1))
  then have "map ?f ?g \<noteq> []" by simp
  from idxmax_first[OF this] obtain ys b zs where
    d: "map ?f ?g = ys @ b # zs" and ix: "idxmax (map ?f ?g) = Inr (fst b)"
    and lt: "\<forall>c \<in> set ys. snd c < snd b" and le: "\<forall>c \<in> set zs. snd c \<le> snd b" by blast
  from d obtain gy gb gz where g: "?g = gy @ gb # gz" and ys: "ys = map ?f gy"
    and b: "b = ?f gb" and zs: "zs = map ?f gz"
    by (auto simp: map_eq_append_conv map_eq_Cons_conv)
  obtain i r where gb: "gb = (i, r)" by (cases gb)
  have bi: "fst b = i" "snd b = v_visit_count r" by (simp_all add: b gb)
  have "(i, r) \<in> set ?g" unfolding g gb by simp
  then have ir: "i < length vc" "r = vc ! i" "meets_min_visits (vc ! i)" "v_user_ID (vc ! i) = u"
    using mem[of i r] by blast+
  have before: "j < i \<and> v_visit_count q < v_visit_count r" if "(j, q) \<in> set gy" for j q
  proof
    from srt that show "j < i" unfolding g gb by (force simp: sorted_wrt_append)
    from lt that show "v_visit_count q < v_visit_count r" unfolding ys bi by force
  qed
  have after: "i < j \<and> v_visit_count q \<le> v_visit_count r" if "(j, q) \<in> set gz" for j q
  proof
    from srt that show "i < j" unfolding g gb by (force simp: sorted_wrt_append)
    from le that show "v_visit_count q \<le> v_visit_count r" unfolding zs bi by force
  qed
  have "v_visit_count (vc ! j) \<le> v_visit_count (vc ! i) \<and>
        (j < i \<longrightarrow> v_visit_count (vc ! j) < v_visit_count (vc ! i))"
    if j: "j < length vc" "v_user_ID (vc ! j) = u" "meets_min_visits (vc ! j)" for j
  proof -
    from j have "(j, vc ! j) \<in> set ?g" using mem[of j "vc ! j"] by blast
    then consider "(j, vc ! j) \<in> set gy" | "(j, vc ! j) = (i, r)" | "(j, vc ! j) \<in> set gz"
      unfolding g gb by auto
    then show ?thesis
    proof cases
      case 1
      from before[OF 1] show ?thesis by (simp add: ir(2)[symmetric])
    next
      case 2
      then show ?thesis by simp
    next
      case 3
      from after[OF 3] show ?thesis by (simp add: ir(2)[symmetric])
    qed
  qed
  then have "is_best vc u i" unfolding is_best_def using ir by blast
  with ix bi show ?thesis by auto
qed


lemma collect_map_Inr:
  "(\<And>x. x \<in> set xs \<Longrightarrow> f x = Inr (g x)) \<Longrightarrow> collect (map f xs) = Inr (map g xs)"
  by (induction xs) simp_all

lemma list_all2_rightD:
  "list_all2 P xs ys \<Longrightarrow> y \<in> set ys \<Longrightarrow> \<exists>x \<in> set xs. P x y"
  by (induction rule: list_all2_induct) auto

lemma loc_best:
  fixes vc :: "('u, 'g) visit_row list"
  defines "home \<equiv> filter (\<lambda>(i, r). meets_min_visits r) (enumerate 0 vc)"
  assumes "list_all2 (is_best vc) us labels"
  shows "loc home labels = Inr (map (\<lambda>i. vc ! i) labels)"
  unfolding loc_def
proof (rule collect_map_Inr)
  fix i assume "i \<in> set labels"
  with assms obtain u where "is_best vc u i" by (blast dest: list_all2_rightD)
  then have "(i, vc ! i) \<in> set home"
    unfolding home_def is_best_def by (auto simp: in_set_enumerate_eq)
  moreover have "distinct (map fst home)"
    unfolding home_def using sorted_fst_enumerate strict_sorted_iff by blast
  ultimately have "map_of home i = Some (vc ! i)" by simp
  then show "(case map_of home i of None \<Rightarrow> Inl KeyError | Some r \<Rightarrow> Inr r) = Inr (vc ! i)"
    by simp
qed

lemma home_users:
  "map (\<lambda>(i, r). v_user_ID r) (filter (\<lambda>(i, r). meets_min_visits r) (enumerate 0 vc)) =
   map v_user_ID (filter meets_min_visits vc)"
proof -
  have "map (\<lambda>(i, r). v_user_ID r) xs = map v_user_ID (map snd xs)" for xs :: "(nat \<times> ('u, 'g) visit_row) list"
    by (simp add: split_def)
  from this[of "filter (\<lambda>(i, r). meets_min_visits r) (enumerate 0 vc)"]
  show ?thesis by (simp only: map_snd_filter_enumerate)
qed

lemma filter_home_locations_eq:
  "\<exists>labels. filter_home_locations vc =
       Inr (v_user_ID ` set vc - v_user_ID ` {r \<in> set vc. meets_min_visits r},
            map (\<lambda>i. select_columns (vc ! i)) labels)
     \<and> list_all2 (is_best vc) (sort (remdups (map v_user_ID (filter meets_min_visits vc)))) labels"
proof -
  let ?home = "filter (\<lambda>(i, r). meets_min_visits r) (enumerate 0 vc)"
  let ?users = "sort (remdups (map v_user_ID (filter meets_min_visits vc)))"
  have "\<exists>labels. collect (map (\<lambda>u. idxmax (map (\<lambda>(i, r). (i, v_visit_count r))
                                    (filter (\<lambda>(i, r). v_user_ID r = u) ?home))) ?users) = Inr labels
           \<and> list_all2 (is_best vc) ?users labels"
  proof (rule collect_all2)
    fix u assume "u \<in> set ?users"
    then have "u \<in> set (map v_user_ID (filter meets_min_visits vc))" by simp
    then show "\<exists>i. idxmax (map (\<lambda>(i, r). (i, v_visit_count r))
                                    (filter (\<lambda>(i, r). v_user_ID r = u) ?home)) = Inr i \<and> is_best vc u i"
      by (rule group_idxmax)
  qed
  then obtain labels where g: "groupby_idxmax ?home = Inr labels"
    and best: "list_all2 (is_best vc) ?users labels"
    unfolding groupby_idxmax_def home_users by blast
  have l: "loc ?home labels = Inr (map (\<lambda>i. vc ! i) labels)"
    using best by (rule loc_best)
  have "filter_home_locations vc =
       Inr (v_user_ID ` set vc - v_user_ID ` {r \<in> set vc. meets_min_visits r},
            map (\<lambda>i. select_columns (vc ! i)) labels)"
    unfolding filter_home_locations_def Let_def g home_users sum.case l
    by (simp add: comp_def)
  with best show ?thesis by blast
qed

section \<open>The home assignment\<close>

lemma home_sample:
  "filter_home_locations sample_visits =
     Inr ({2}, [\<lparr>h_user_ID = 1, h_GEOID = 10, h_number_of_days = Some 6, h_visit_count = 6\<rparr>])"
  by (simp add: filter_home_locations_def sample_visits_def enumerate_eq_zip meets_min_visits_def
      groupby_idxmax_def idxmax_def loc_def select_columns_def Let_def)

lemma list_all2_map_eq:
  "list_all2 (\<lambda>x y. f y = x) xs ys \<Longrightarrow> map f ys = xs"
  by (induction rule: list_all2_induct) auto

text \<open>
  C1. \<open>filter_home_locations\<close> returns a frame in which a user has a row exactly when some
  visit count row of that user meets its \<open>min_visits\<close>; no user has two rows; and each row
  is the four columns user, tract, number of days and visit count of a qualifying row
  whose count is the largest among the qualifying rows of the user.
\<close>

theorem home_assignment:
  "\<exists>N H. filter_home_locations vc = Inr (N, H)
     \<and> (\<forall>u. (\<exists>h \<in> set H. h_user_ID h = u) \<longleftrightarrow> (\<exists>r \<in> set vc. v_user_ID r = u \<and> meets_min_visits r))
     \<and> distinct (map h_user_ID H)
     \<and> (\<forall>h \<in> set H. \<exists>r \<in> set vc.
           h = \<lparr>h_user_ID = v_user_ID r, h_GEOID = v_GEOID r,
                 h_number_of_days = v_number_of_days r, h_visit_count = v_visit_count r\<rparr>
           \<and> meets_min_visits r
           \<and> (\<forall>r' \<in> set vc. v_user_ID r' = v_user_ID r \<and> meets_min_visits r'
                  \<longrightarrow> v_visit_count r' \<le> v_visit_count r))"
proof -
  let ?users = "sort (remdups (map v_user_ID (filter meets_min_visits vc)))"
  from filter_home_locations_eq[of vc] obtain labels where
    eq: "filter_home_locations vc =
       Inr (v_user_ID ` set vc - v_user_ID ` {r \<in> set vc. meets_min_visits r},
            map (\<lambda>i. select_columns (vc ! i)) labels)"
    and best: "list_all2 (is_best vc) ?users labels" by blast
  let ?H = "map (\<lambda>i. select_columns (vc ! i)) labels"
  have users: "map h_user_ID ?H = ?users"
  proof -
    have "list_all2 (\<lambda>u i. h_user_ID (select_columns (vc ! i)) = u) ?users labels"
      using best by (rule list_all2_mono) (simp add: is_best_def select_columns_def)
    then have "map (\<lambda>i. h_user_ID (select_columns (vc ! i))) labels = ?users"
      by (rule list_all2_map_eq)
    then show ?thesis by (simp add: comp_def)
  qed
  have 1: "(\<exists>h \<in> set ?H. h_user_ID h = u) \<longleftrightarrow> (\<exists>r \<in> set vc. v_user_ID r = u \<and> meets_min_visits r)" for u
  proof -
    have "(\<exists>h \<in> set ?H. h_user_ID h = u) \<longleftrightarrow> u \<in> set (map h_user_ID ?H)" by (simp only: set_map) blast
    also have "\<dots> \<longleftrightarrow> (\<exists>r \<in> set vc. v_user_ID r = u \<and> meets_min_visits r)"
      unfolding users by auto
    finally show ?thesis .
  qed
  have 2: "distinct (map h_user_ID ?H)" unfolding users by simp
  have 3: "\<exists>r \<in> set vc.
           h = \<lparr>h_user_ID = v_user_ID r, h_GEOID = v_GEOID r,
                 h_number_of_days = v_number_of_days r, h_visit_count = v_visit_count r\<rparr>
           \<and> meets_min_visits r
           \<and> (\<forall>r' \<in> set vc. v_user_ID r' = v_user_ID r \<and> meets_min_visits r'
                  \<longrightarrow> v_visit_count r' \<le> v_visit_count r)" if "h \<in> set ?H" for h
  proof -
    from that obtain i where i: "i \<in> set labels" "h = select_columns (vc ! i)" by auto
    with best obtain u where b: "is_best vc u i" by (blast dest: list_all2_rightD)
    then have "vc ! i \<in> set vc" by (simp add: is_best_def)
    moreover have "\<forall>r' \<in> set vc. v_user_ID r' = v_user_ID (vc ! i) \<and> meets_min_visits r'
                  \<longrightarrow> v_visit_count r' \<le> v_visit_count (vc ! i)"
      using b unfolding is_best_def by (metis in_set_conv_nth)
    ultimately show ?thesis using b i(2) unfolding is_best_def select_columns_def by blast
  qed
  from eq 1 2 3 show ?thesis by blast
qed

theorem home_assignment_witness:
  "filter_home_locations sample_visits =
     Inr ({2}, [\<lparr>h_user_ID = 1, h_GEOID = 10, h_number_of_days = Some 6, h_visit_count = 6\<rparr>])
   \<and> (\<exists>r \<in> set sample_visits. v_user_ID r = 1 \<and> meets_min_visits r)
   \<and> \<not> (\<exists>r \<in> set sample_visits. v_user_ID r = 2 \<and> meets_min_visits r)"
proof -
  from home_assignment [of sample_visits] obtain N H where
    eq: "filter_home_locations sample_visits = Inr (N, H)"
    and iff: "\<forall>u. (\<exists>h \<in> set H. h_user_ID h = u)
                \<longleftrightarrow> (\<exists>r \<in> set sample_visits. v_user_ID r = u \<and> meets_min_visits r)"
    by blast
  from eq have H: "H = [\<lparr>h_user_ID = 1, h_GEOID = 10, h_number_of_days = Some 6, h_visit_count = 6\<rparr>]"
    unfolding home_sample by simp
  have a: "(\<exists>h \<in> set H. h_user_ID h = 1)
             \<longleftrightarrow> (\<exists>r \<in> set sample_visits. v_user_ID r = 1 \<and> meets_min_visits r)"
    using iff by blast
  have b: "(\<exists>h \<in> set H. h_user_ID h = 2)
             \<longleftrightarrow> (\<exists>r \<in> set sample_visits. v_user_ID r = 2 \<and> meets_min_visits r)"
    using iff by blast
  show ?thesis using a b unfolding H by (simp add: home_sample)
qed

section \<open>Ties\<close>

lemma visit_count_keys:
  "map (\<lambda>r. (v_user_ID r, v_GEOID r))
       (count_visits (spatial_join w night_data tracts) (calculate_days_available night_data)) =
   sort (remdups (group_keys (spatial_join w night_data tracts)))"
  by (simp add: count_visits_eq group_sizes_def comp_def split_def)

lemma visit_counts_sorted:
  "sorted_wrt (\<lambda>a b. v_user_ID a < v_user_ID b \<or> (v_user_ID a = v_user_ID b \<and> v_GEOID a < v_GEOID b))
     (count_visits (spatial_join w night_data tracts) (calculate_days_available night_data))"
proof -
  let ?vc = "count_visits (spatial_join w night_data tracts) (calculate_days_available night_data)"
  have "sorted_wrt (<) (map (\<lambda>r. (v_user_ID r, v_GEOID r)) ?vc)"
    unfolding visit_count_keys by (simp add: strict_sorted_iff)
  then have "sorted_wrt (\<lambda>a b. (v_user_ID a, v_GEOID a) < (v_user_ID b, v_GEOID b)) ?vc"
    by (simp only: sorted_wrt_map)
  then show ?thesis
    by (rule sorted_wrt_mono_rel[rotated]) auto
qed

lemma tie_sample:
  "count_visits (spatial_join within_box [ping_at 1 82800 7 7] sample_tracts)
     (calculate_days_available [ping_at 1 82800 7 7]) =
   [\<lparr>v_user_ID = 1, v_GEOID = 10, v_visit_count = 1, v_number_of_days = Some 1, v_min_visits = Some 0\<rparr>,
    \<lparr>v_user_ID = 1, v_GEOID = 20, v_visit_count = 1, v_number_of_days = Some 1, v_min_visits = Some 0\<rparr>]"
  by (simp add: count_visits_def spatial_join_Cons zones_of_def sample_tracts_def within_box_def
      box_tract_def ping_at_def group_sizes_def group_keys_def calculate_days_available_def
      nunique_dates_def attach_min_visits_spec min_visits_spec_def left_join_def join_row_def)

lemma tie_home_sample:
  "filter_home_locations
     [\<lparr>v_user_ID = 1::nat, v_GEOID = 10::nat, v_visit_count = 1, v_number_of_days = Some 1, v_min_visits = Some 0\<rparr>,
      \<lparr>v_user_ID = 1, v_GEOID = 20, v_visit_count = 1, v_number_of_days = Some 1, v_min_visits = Some 0\<rparr>] =
   Inr ({}, [\<lparr>h_user_ID = 1, h_GEOID = 10, h_number_of_days = Some 1, h_visit_count = 1\<rparr>])"
  by (simp add: filter_home_locations_def enumerate_eq_zip meets_min_visits_def
      groupby_idxmax_def idxmax_def loc_def select_columns_def Let_def)

text \<open>
  C10. The visit count frame is strictly ascending by (\<open>user_ID\<close>, \<open>GEOID\<close>), and the row
  selected for a user has the largest count among the user's qualifying rows and, among
  the qualifying rows with that count, the smallest \<open>GEOID\<close>.
\<close>

theorem tie_break_smallest_GEOID:
  "sorted_wrt (\<lambda>a b. v_user_ID a < v_user_ID b \<or> (v_user_ID a = v_user_ID b \<and> v_GEOID a < v_GEOID b))
     (count_visits (spatial_join w night_data tracts) (calculate_days_available night_data))
   \<and> (\<exists>N H. filter_home_locations
               (count_visits (spatial_join w night_data tracts) (calculate_days_available night_data))
             = Inr (N, H)
        \<and> (\<forall>h \<in> set H.
             \<forall>r \<in> set (count_visits (spatial_join w night_data tracts) (calculate_days_available night_data)).
               v_user_ID r = h_user_ID h \<and> meets_min_visits r \<longrightarrow>
                 v_visit_count r \<le> h_visit_count h
                 \<and> (v_visit_count r = h_visit_count h \<longrightarrow> h_GEOID h \<le> v_GEOID r)))"
proof -
  let ?vc = "count_visits (spatial_join w night_data tracts) (calculate_days_available night_data)"
  let ?users = "sort (remdups (map v_user_ID (filter meets_min_visits ?vc)))"
  have srt: "sorted_wrt (\<lambda>a b. v_user_ID a < v_user_ID b \<or> (v_user_ID a = v_user_ID b \<and> v_GEOID a < v_GEOID b)) ?vc"
    by (rule visit_counts_sorted)
  from filter_home_locations_eq[of ?vc] obtain labels where
    eq: "filter_home_locations ?vc =
       Inr (v_user_ID ` set ?vc - v_user_ID ` {r \<in> set ?vc. meets_min_visits r},
            map (\<lambda>i. select_columns (?vc ! i)) labels)"
    and best: "list_all2 (is_best ?vc) ?users labels" by blast
  have "v_visit_count r \<le> h_visit_count h
        \<and> (v_visit_count r = h_visit_count h \<longrightarrow> h_GEOID h \<le> v_GEOID r)"
    if h: "h \<in> set (map (\<lambda>i. select_columns (?vc ! i)) labels)" and r: "r \<in> set ?vc"
      and ur: "v_user_ID r = h_user_ID h" and mr: "meets_min_visits r" for h r
  proof -
    from h obtain i where i: "i \<in> set labels" "h = select_columns (?vc ! i)" by auto
    with best obtain u where b: "is_best ?vc u i" by (blast dest: list_all2_rightD)
    from r obtain j where j: "j < length ?vc" "r = ?vc ! j" by (auto simp: in_set_conv_nth)
    have hu: "h_user_ID h = u" "h_visit_count h = v_visit_count (?vc ! i)" "h_GEOID h = v_GEOID (?vc ! i)"
      using b by (simp_all add: i(2) select_columns_def is_best_def)
    from b j ur mr hu have le: "v_visit_count r \<le> v_visit_count (?vc ! i)"
      and lt: "j < i \<Longrightarrow> v_visit_count r < v_visit_count (?vc ! i)"
      unfolding is_best_def by auto
    have "v_GEOID (?vc ! i) \<le> v_GEOID r" if "v_visit_count r = v_visit_count (?vc ! i)"
    proof (cases "i = j")
      case True
      then show ?thesis by (simp add: j(2))
    next
      case False
      with lt that have "i < j" by force
      with srt j(1) have "v_user_ID (?vc ! i) < v_user_ID (?vc ! j)
          \<or> (v_user_ID (?vc ! i) = v_user_ID (?vc ! j) \<and> v_GEOID (?vc ! i) < v_GEOID (?vc ! j))"
        by (simp only: sorted_wrt_iff_nth_less)
      moreover have "v_user_ID (?vc ! i) = v_user_ID (?vc ! j)"
        using b ur hu j(2) by (simp add: is_best_def)
      ultimately show ?thesis by (simp add: j(2))
    qed
    with le show ?thesis by (simp add: hu)
  qed
  with srt eq show ?thesis by blast
qed

theorem tie_break_smallest_GEOID_witness:
  "count_visits (spatial_join within_box [ping_at 1 82800 7 7] sample_tracts)
     (calculate_days_available [ping_at 1 82800 7 7]) =
     [\<lparr>v_user_ID = 1, v_GEOID = 10, v_visit_count = 1, v_number_of_days = Some 1, v_min_visits = Some 0\<rparr>,
      \<lparr>v_user_ID = 1, v_GEOID = 20, v_visit_count = 1, v_number_of_days = Some 1, v_min_visits = Some 0\<rparr>]
   \<and> filter_home_locations
        (count_visits (spatial_join within_box [ping_at 1 82800 7 7] sample_tracts)
          (calculate_days_available [ping_at 1 82800 7 7])) =
       Inr ({}, [\<lparr>h_user_ID = 1, h_GEOID = 10, h_number_of_days = Some 1, h_visit_count = 1\<rparr>])
   \<and> list_all meets_min_visits
         (count_visits (spatial_join within_box [ping_at 1 82800 7 7] sample_tracts)
           (calculate_days_available [ping_at 1 82800 7 7]))
   \<and> Min (v_GEOID ` set (count_visits (spatial_join within_box [ping_at 1 82800 7 7] sample_tracts)
                             (calculate_days_available [ping_at 1 82800 7 7]))) = 10"
proof -
  have b: "filter_home_locations
        (count_visits (spatial_join within_box [ping_at 1 82800 7 7] sample_tracts)
          (calculate_days_available [ping_at 1 82800 7 7])) =
       Inr ({}, [\<lparr>h_user_ID = 1, h_GEOID = 10, h_number_of_days = Some 1, h_visit_count = 1\<rparr>])"
    unfolding tie_sample by (rule tie_home_sample)
  have c: "\<forall>r \<in> set (count_visits (spatial_join within_box [ping_at 1 82800 7 7] sample_tracts)
                       (calculate_days_available [ping_at 1 82800 7 7])).
         v_user_ID r = 1 \<and> meets_min_visits r \<and> v_visit_count r = 1"
    unfolding tie_sample by (simp add: meets_min_visits_def)
  from tie_break_smallest_GEOID [of within_box "[ping_at 1 82800 7 7]" sample_tracts]
  have le: "\<forall>r \<in> set (count_visits (spatial_join within_box [ping_at 1 82800 7 7] sample_tracts)
                       (calculate_days_available [ping_at 1 82800 7 7])). 10 \<le> v_GEOID r"
    unfolding b using c by auto
  have m: "list_all meets_min_visits
         (count_visits (spatial_join within_box [ping_at 1 82800 7 7] sample_tracts)
           (calculate_days_available [ping_at 1 82800 7 7]))"
    using c by (simp add: list_all_iff)
  have "10 \<in> v_GEOID ` set (count_visits (spatial_join within_box [ping_at 1 82800 7 7] sample_tracts)
                             (calculate_days_available [ping_at 1 82800 7 7]))"
    unfolding tie_sample by simp
  with le have "Min (v_GEOID ` set (count_visits (spatial_join within_box [ping_at 1 82800 7 7] sample_tracts)
                             (calculate_days_available [ping_at 1 82800 7 7]))) = 10"
    by (intro Min_eqI) auto
  with tie_sample b m show ?thesis by blast
qed

section \<open>Empty night data\<close>

lemma filter_home_locations_Nil: "filter_home_locations [] = Inr ({}, [])"
  by (simp add: filter_home_locations_def enumerate_eq_zip groupby_idxmax_def loc_def)





section \<open>Users whose night pings match no tract\<close>

text \<open>
  C8. A user whose only night ping lies in no tract has a row in the days available frame
  but no visit count row, so the run returns the empty result and prints no message for
  the user: the set of users with a message is empty.
\<close>

theorem unmatched_user_no_notice:
  "filter_night_time_data 22 6 [ping_at 2 82800 50 50] = [ping_at 2 82800 50 50]
   \<and> calculate_days_available [ping_at 2 82800 50 50] =
       [\<lparr>d_user_ID = 2, d_number_of_days = 1, d_min_visits = 0\<rparr>]
   \<and> count_visits (spatial_join within_box [ping_at 2 82800 50 50] sample_tracts)
       (calculate_days_available [ping_at 2 82800 50 50]) = []
   \<and> run within_box 22 6 [ping_at 2 82800 50 50] sample_tracts = Inr ({}, [])"
proof -
  have n: "filter_night_time_data 22 6 [ping_at 2 82800 50 50] = [ping_at 2 82800 50 50]"
    by (simp add: filter_night_time_data_def hour_def ping_at_def)
  have d: "calculate_days_available [ping_at 2 82800 50 50] =
       [\<lparr>d_user_ID = 2, d_number_of_days = 1, d_min_visits = 0\<rparr>]"
    by (simp add: calculate_days_available_def nunique_dates_def attach_min_visits_spec
        min_visits_spec_def ping_at_def)
  have j: "spatial_join within_box [ping_at 2 82800 50 50] sample_tracts = [(ping_at 2 82800 50 50, None)]"
    by (simp add: spatial_join_Cons zones_of_def sample_tracts_def within_box_def box_tract_def ping_at_def)
  have c: "count_visits (spatial_join within_box [ping_at 2 82800 50 50] sample_tracts)
       (calculate_days_available [ping_at 2 82800 50 50]) = []"
    unfolding j by (simp add: count_visits_def group_sizes_def group_keys_def left_join_def)
  have r: "run within_box 22 6 [ping_at 2 82800 50 50] sample_tracts = Inr ({}, [])"
    unfolding run_def Let_def n c by (rule filter_home_locations_Nil)
  show ?thesis by (intro conjI n d c r)
qed

section \<open>Pings, tracts and visit count rows\<close>

lemma notices_eq:
  "filter_home_locations vc = Inr (N, H) \<Longrightarrow>
   N = v_user_ID ` set vc - v_user_ID ` {r \<in> set vc. meets_min_visits r}"
  using filter_home_locations_eq[of vc] by auto

lemma home_row_source:
  assumes "filter_home_locations vc = Inr (N, H)" and "h \<in> set H"
  shows "\<exists>i. is_best vc (h_user_ID h) i \<and> h = select_columns (vc ! i)"
proof -
  from filter_home_locations_eq[of vc] assms(1) obtain labels where
    H: "H = map (\<lambda>i. select_columns (vc ! i)) labels"
    and best: "list_all2 (is_best vc) (sort (remdups (map v_user_ID (filter meets_min_visits vc)))) labels"
    by auto
  from assms(2) obtain i where i: "i \<in> set labels" "h = select_columns (vc ! i)" unfolding H by auto
  with best obtain u where b: "is_best vc u i" by (blast dest: list_all2_rightD)
  then have "h_user_ID h = u" by (simp add: i(2) select_columns_def is_best_def)
  with b i(2) show ?thesis by blast
qed

lemma filter_home_locations_total: "\<exists>N H. filter_home_locations vc = Inr (N, H)"
  using filter_home_locations_eq[of vc] by blast

lemma visit_row_ping:
  assumes "r \<in> set (count_visits (spatial_join w night_data tracts) (calculate_days_available night_data))"
  shows "\<exists>q \<in> set night_data. \<exists>z \<in> set tracts.
           user_ID q = v_user_ID r \<and> GEOID z = v_GEOID r \<and> w (orig_long q, orig_lat q) (geometry z)"
proof -
  from assms have "(v_user_ID r, v_GEOID r) \<in> set (map (\<lambda>r. (v_user_ID r, v_GEOID r))
       (count_visits (spatial_join w night_data tracts) (calculate_days_available night_data)))"
    by (simp only: set_map) blast
  then have "(v_user_ID r, v_GEOID r) \<in> set (group_keys (spatial_join w night_data tracts))"
    unfolding visit_count_keys by simp
  then show ?thesis
    by (auto simp: group_keys_spatial_join zones_of_def) metis
qed

lemma ping_visit_row:
  assumes "q \<in> set night_data" "z \<in> set tracts" "w (orig_long q, orig_lat q) (geometry z)"
  shows "\<exists>r \<in> set (count_visits (spatial_join w night_data tracts) (calculate_days_available night_data)).
           v_user_ID r = user_ID q \<and> v_GEOID r = GEOID z"
proof -
  from assms have "(user_ID q, GEOID z) \<in> set (group_keys (spatial_join w night_data tracts))"
    by (auto simp: group_keys_spatial_join zones_of_def)
  then have "(user_ID q, GEOID z) \<in> set (map (\<lambda>r. (v_user_ID r, v_GEOID r))
       (count_visits (spatial_join w night_data tracts) (calculate_days_available night_data)))"
    unfolding visit_count_keys by simp
  then show ?thesis by auto
qed

lemma visit_count_value:
  assumes "r \<in> set (count_visits (spatial_join w night_data tracts) (calculate_days_available night_data))"
  shows "v_visit_count r =
           (\<Sum>q\<leftarrow>night_data. if user_ID q = v_user_ID r
               then length (filter (\<lambda>z. GEOID z = v_GEOID r) (zones_of w tracts q)) else 0)"
proof -
  from assms obtain u g where
    r: "r = \<lparr>v_user_ID = u, v_GEOID = g,
             v_visit_count = count_list (group_keys (spatial_join w night_data tracts)) (u, g),
             v_number_of_days = Some (days_of night_data u),
             v_min_visits = Some (min_visits_spec (days_of night_data u))\<rparr>"
    unfolding count_visits_eq group_sizes_def by auto
  have sel: "v_user_ID r = u" "v_GEOID r = g"
    "v_visit_count r = count_list (group_keys (spatial_join w night_data tracts)) (u, g)"
    by (simp_all add: r)
  show ?thesis unfolding sel by (rule count_group_keys)
qed

lemma group_keys_drop_unmatched:
  assumes "zones_of w tracts p = []"
  shows "group_keys (spatial_join w (filter (\<lambda>q. q \<noteq> p) night_data) tracts) =
         group_keys (spatial_join w night_data tracts)"
  unfolding group_keys_spatial_join using assms by (induction night_data) auto

section \<open>Pings outside every tract\<close>

lemma run_sample:
  "run within_box 22 6 sample_df sample_tracts =
     Inr ({}, [\<lparr>h_user_ID = 1, h_GEOID = 20, h_number_of_days = Some 2, h_visit_count = 3\<rparr>,
               \<lparr>h_user_ID = 4, h_GEOID = 30, h_number_of_days = Some 1, h_visit_count = 1\<rparr>])"
  unfolding run_def Let_def visit_counts_sample
  by (simp add: filter_home_locations_def enumerate_eq_zip meets_min_visits_def
      groupby_idxmax_def idxmax_def loc_def select_columns_def Let_def)

text \<open>
  C5. A night ping that lies within no tract polygon still counts for coverage: its user
  has a row in the days available frame and its date is among the dates counted there.
  It adds to no visit count: the visit count frame is the one computed without the ping.
  A user all of whose night pings lie within no tract has no visit count row and no row
  in the result of the run.
\<close>

theorem unmatched_ping_coverage_only:
  fixes df :: "('u::linorder, 'c) ping list" and tracts :: "('g::linorder, 'geom) tract list"
  assumes p: "p \<in> set (filter_night_time_data s e df)"
    and un: "\<forall>z \<in> set tracts. \<not> w (orig_long p, orig_lat p) (geometry z)"
  shows "(\<exists>d \<in> set (calculate_days_available (filter_night_time_data s e df)).
            d_user_ID d = user_ID p
            \<and> d_number_of_days d = card (date ` {q \<in> set (filter_night_time_data s e df). user_ID q = user_ID p})
            \<and> date p \<in> date ` {q \<in> set (filter_night_time_data s e df). user_ID q = user_ID p})
       \<and> count_visits (spatial_join w (filter_night_time_data s e df) tracts) days =
           count_visits (spatial_join w (filter (\<lambda>q. q \<noteq> p) (filter_night_time_data s e df)) tracts) days
       \<and> ((\<forall>q \<in> set (filter_night_time_data s e df). user_ID q = user_ID p \<longrightarrow>
               (\<forall>z \<in> set tracts. \<not> w (orig_long q, orig_lat q) (geometry z))) \<longrightarrow>
            (\<forall>r \<in> set (count_visits (spatial_join w (filter_night_time_data s e df) tracts)
                         (calculate_days_available (filter_night_time_data s e df))).
                v_user_ID r \<noteq> user_ID p)
            \<and> (\<exists>N H. run w s e df tracts = Inr (N, H) \<and> (\<forall>h \<in> set H. h_user_ID h \<noteq> user_ID p)))"
proof -
  let ?night = "filter_night_time_data s e df"
  let ?vc = "count_visits (spatial_join w ?night tracts) (calculate_days_available ?night)"
  have A: "\<exists>d \<in> set (calculate_days_available ?night).
            d_user_ID d = user_ID p
            \<and> d_number_of_days d = card (date ` {q \<in> set ?night. user_ID q = user_ID p})
            \<and> date p \<in> date ` {q \<in> set ?night. user_ID q = user_ID p}"
    using p unfolding calculate_days_available_eq days_of_def by auto
  from un have z: "zones_of w tracts p = []" by (simp add: zones_of_def filter_empty_conv)
  have B: "count_visits (spatial_join w ?night tracts) days =
           count_visits (spatial_join w (filter (\<lambda>q. q \<noteq> p) ?night) tracts) days"
    unfolding count_visits_def group_sizes_def group_keys_drop_unmatched[OF z] ..
  have C: "(\<forall>r \<in> set ?vc. v_user_ID r \<noteq> user_ID p)
            \<and> (\<exists>N H. run w s e df tracts = Inr (N, H) \<and> (\<forall>h \<in> set H. h_user_ID h \<noteq> user_ID p))"
    if all: "\<forall>q \<in> set ?night. user_ID q = user_ID p \<longrightarrow>
               (\<forall>z \<in> set tracts. \<not> w (orig_long q, orig_lat q) (geometry z))"
  proof -
    have norow: "v_user_ID r \<noteq> user_ID p" if "r \<in> set ?vc" for r
      using visit_row_ping[OF that] all by metis
    obtain N H where run: "filter_home_locations ?vc = Inr (N, H)"
      using filter_home_locations_total by blast
    have "h_user_ID h \<noteq> user_ID p" if "h \<in> set H" for h
    proof -
      from home_row_source[OF run that] obtain i where "is_best ?vc (h_user_ID h) i" by blast
      then have "?vc ! i \<in> set ?vc" "v_user_ID (?vc ! i) = h_user_ID h" by (simp_all add: is_best_def)
      with norow show ?thesis by metis
    qed
    moreover have "run w s e df tracts = Inr (N, H)" using run by (simp add: run_def)
    ultimately show ?thesis using norow by blast
  qed
  from A B C show ?thesis by blast
qed

theorem unmatched_ping_coverage_only_witness:
  "ping_at 2 82800 50 50 \<in> set (filter_night_time_data 22 6 sample_df)
   \<and> concat (map (zones_of within_box sample_tracts)
         (filter (\<lambda>q. user_ID q = 2) (filter_night_time_data 22 6 sample_df))) = []
   \<and> (\<exists>d \<in> set (calculate_days_available (filter_night_time_data 22 6 sample_df)).
            d_user_ID d = 2 \<and> d_number_of_days d = 1)
   \<and> 2 \<notin> v_user_ID `
         set (count_visits (spatial_join within_box (filter_night_time_data 22 6 sample_df) sample_tracts)
               (calculate_days_available (filter_night_time_data 22 6 sample_df)))
   \<and> (\<exists>N H. run within_box 22 6 sample_df sample_tracts = Inr (N, H) \<and> 2 \<notin> h_user_ID ` set H)"
proof -
  let ?p = "ping_at 2 82800 50 50"
  have p: "?p \<in> set (filter_night_time_data 22 6 sample_df)"
    unfolding night_sample by simp
  have z: "concat (map (zones_of within_box sample_tracts)
         (filter (\<lambda>q. user_ID q = 2) (filter_night_time_data 22 6 sample_df))) = []"
    unfolding night_sample
    by (simp add: zones_of_def sample_tracts_def within_box_def box_tract_def ping_at_def)
  have un: "\<forall>z \<in> set sample_tracts. \<not> within_box (orig_long ?p, orig_lat ?p) (geometry z)"
    by (simp add: sample_tracts_def within_box_def box_tract_def ping_at_def)
  have all: "\<forall>q \<in> set (filter_night_time_data 22 6 sample_df). user_ID q = user_ID ?p \<longrightarrow>
               (\<forall>z \<in> set sample_tracts. \<not> within_box (orig_long q, orig_lat q) (geometry z))"
    unfolding night_sample
    by (simp add: sample_tracts_def within_box_def box_tract_def ping_at_def)
  have u: "user_ID ?p = 2" by (simp add: ping_at_def)
  have d: "\<exists>d \<in> set (calculate_days_available (filter_night_time_data 22 6 sample_df)).
            d_user_ID d = 2 \<and> d_number_of_days d = 1"
    unfolding days_sample by simp
  from unmatched_ping_coverage_only
         [where p = "ping_at 2 82800 50 50" and s = 22 and e = 6 and df = sample_df
            and tracts = sample_tracts and w = within_box] p un all
  have "(\<forall>r \<in> set (count_visits (spatial_join within_box (filter_night_time_data 22 6 sample_df) sample_tracts)
                         (calculate_days_available (filter_night_time_data 22 6 sample_df))).
                v_user_ID r \<noteq> 2)
   \<and> (\<exists>N H. run within_box 22 6 sample_df sample_tracts = Inr (N, H) \<and> (\<forall>h \<in> set H. h_user_ID h \<noteq> 2))"
    unfolding u by blast
  then have "2 \<notin> v_user_ID `
         set (count_visits (spatial_join within_box (filter_night_time_data 22 6 sample_df) sample_tracts)
               (calculate_days_available (filter_night_time_data 22 6 sample_df)))
   \<and> (\<exists>N H. run within_box 22 6 sample_df sample_tracts = Inr (N, H) \<and> 2 \<notin> h_user_ID ` set H)"
    by auto
  with p z d show ?thesis by blast
qed

section \<open>Pings within several tracts\<close>

lemma overlap_joined:
  "spatial_join within_box [ping_at 1 82800 7 7] sample_tracts =
     [(ping_at 1 82800 7 7, Some (box_tract 20 (0, 0, 10, 10))),
      (ping_at 1 82800 7 7, Some (box_tract 10 (5, 5, 20, 20)))]"
  by (simp add: spatial_join_Cons zones_of_def sample_tracts_def within_box_def box_tract_def ping_at_def)

text \<open>
  C6, as stated, fails: with overlapping tracts 20 and 10, one night ping within both is
  joined with both and the visit count frame has a row with count 1 for each.
\<close>

theorem overlap_counted_twice:
  "filter_night_time_data 22 6 [ping_at 1 82800 7 7] = [ping_at 1 82800 7 7]
   \<and> within_box (7, 7) (0, 0, 10, 10) \<and> within_box (7, 7) (5, 5, 20, 20)
   \<and> spatial_join within_box [ping_at 1 82800 7 7] sample_tracts =
       [(ping_at 1 82800 7 7, Some (box_tract 20 (0, 0, 10, 10))),
        (ping_at 1 82800 7 7, Some (box_tract 10 (5, 5, 20, 20)))]
   \<and> count_visits (spatial_join within_box [ping_at 1 82800 7 7] sample_tracts)
       (calculate_days_available [ping_at 1 82800 7 7]) =
       [\<lparr>v_user_ID = 1, v_GEOID = 10, v_visit_count = 1, v_number_of_days = Some 1, v_min_visits = Some 0\<rparr>,
        \<lparr>v_user_ID = 1, v_GEOID = 20, v_visit_count = 1, v_number_of_days = Some 1, v_min_visits = Some 0\<rparr>]"
proof -
  have n: "filter_night_time_data 22 6 [ping_at 1 82800 7 7] = [ping_at 1 82800 7 7]"
    by (simp add: filter_night_time_data_def hour_def ping_at_def)
  have b: "within_box (7, 7) (0, 0, 10, 10)" "within_box (7, 7) (5, 5, 20, 20)"
    by (simp_all add: within_box_def)
  show ?thesis by (intro conjI n b overlap_joined tie_sample)
qed

text \<open>
  C6, amended. The spatial join pairs a night ping with every tract whose polygon it lies
  within, in tract order (and once with no tract when there is none). The visit count of
  a (user, tract identifier) row is the number of pairs of a night ping of the user and a
  containing tract with that identifier, and every tract containing a night ping has a
  row for the user of the ping.
\<close>

theorem ping_joined_with_every_zone:
  "spatial_join w night_data tracts =
     concat (map (\<lambda>p. if zones_of w tracts p = [] then [(p, None)]
                       else map (\<lambda>z. (p, Some z)) (zones_of w tracts p)) night_data)
   \<and> (\<forall>r \<in> set (count_visits (spatial_join w night_data tracts) (calculate_days_available night_data)).
         v_visit_count r =
           (\<Sum>q\<leftarrow>night_data. if user_ID q = v_user_ID r
               then length (filter (\<lambda>z. GEOID z = v_GEOID r) (zones_of w tracts q)) else 0))
   \<and> (\<forall>q \<in> set night_data. \<forall>z \<in> set (zones_of w tracts q).
         \<exists>r \<in> set (count_visits (spatial_join w night_data tracts) (calculate_days_available night_data)).
           v_user_ID r = user_ID q \<and> v_GEOID r = GEOID z)"
proof (intro conjI ballI)
  show "spatial_join w night_data tracts =
     concat (map (\<lambda>p. if zones_of w tracts p = [] then [(p, None)]
                       else map (\<lambda>z. (p, Some z)) (zones_of w tracts p)) night_data)"
    by (induction night_data) (simp_all add: spatial_join_Cons)
next
  fix r assume "r \<in> set (count_visits (spatial_join w night_data tracts) (calculate_days_available night_data))"
  then show "v_visit_count r =
           (\<Sum>q\<leftarrow>night_data. if user_ID q = v_user_ID r
               then length (filter (\<lambda>z. GEOID z = v_GEOID r) (zones_of w tracts q)) else 0)"
    by (rule visit_count_value)
next
  fix q z assume "q \<in> set night_data" "z \<in> set (zones_of w tracts q)"
  then show "\<exists>r \<in> set (count_visits (spatial_join w night_data tracts) (calculate_days_available night_data)).
           v_user_ID r = user_ID q \<and> v_GEOID r = GEOID z"
    by (intro ping_visit_row) (simp_all add: zones_of_def)
qed

theorem ping_joined_with_every_zone_witness:
  "zones_of within_box sample_tracts (ping_at 1 82800 7 7) =
     [box_tract 20 (0, 0, 10, 10), box_tract 10 (5, 5, 20, 20)]
   \<and> spatial_join within_box [ping_at 1 82800 7 7] sample_tracts =
       [(ping_at 1 82800 7 7, Some (box_tract 20 (0, 0, 10, 10))),
        (ping_at 1 82800 7 7, Some (box_tract 10 (5, 5, 20, 20)))]
   \<and> map v_visit_count
         (count_visits (spatial_join within_box [ping_at 1 82800 7 7] sample_tracts)
           (calculate_days_available [ping_at 1 82800 7 7])) = [1, 1]
   \<and> (\<exists>r \<in> set (count_visits (spatial_join within_box [ping_at 1 82800 7 7] sample_tracts)
                       (calculate_days_available [ping_at 1 82800 7 7])).
         v_user_ID r = 1 \<and> v_GEOID r = 20)
   \<and> (\<exists>r \<in> set (count_visits (spatial_join within_box [ping_at 1 82800 7 7] sample_tracts)
                       (calculate_days_available [ping_at 1 82800 7 7])).
         v_user_ID r = 1 \<and> v_GEOID r = 10)"
proof -
  have z: "zones_of within_box sample_tracts (ping_at 1 82800 7 7) =
     [box_tract 20 (0, 0, 10, 10), box_tract 10 (5, 5, 20, 20)]"
    by (simp add: zones_of_def sample_tracts_def within_box_def box_tract_def ping_at_def)
  have c: "map v_visit_count
         (count_visits (spatial_join within_box [ping_at 1 82800 7 7] sample_tracts)
           (calculate_days_available [ping_at 1 82800 7 7])) = [1, 1]"
    unfolding tie_sample by simp
  from ping_joined_with_every_zone [of within_box "[ping_at 1 82800 7 7]" sample_tracts]
  have "\<forall>q \<in> set [ping_at 1 82800 7 7]. \<forall>z \<in> set (zones_of within_box sample_tracts q).
         \<exists>r \<in> set (count_visits (spatial_join within_box [ping_at 1 82800 7 7] sample_tracts)
                       (calculate_days_available [ping_at 1 82800 7 7])).
           v_user_ID r = user_ID q \<and> v_GEOID r = GEOID z"
    by blast
  then have every: "\<exists>r \<in> set (count_visits (spatial_join within_box [ping_at 1 82800 7 7] sample_tracts)
                       (calculate_days_available [ping_at 1 82800 7 7])).
           v_user_ID r = user_ID (ping_at 1 82800 7 7) \<and> v_GEOID r = GEOID t"
    if "t \<in> set (zones_of within_box sample_tracts (ping_at 1 82800 7 7))" for t
    using that by simp
  have sel: "user_ID (ping_at 1 82800 7 7) = 1" "GEOID (box_tract 20 (0, 0, 10, 10)) = 20"
    "GEOID (box_tract 10 (5, 5, 20, 20)) = 10"
    by (simp_all add: ping_at_def box_tract_def)
  have e20: "\<exists>r \<in> set (count_visits (spatial_join within_box [ping_at 1 82800 7 7] sample_tracts)
                       (calculate_days_available [ping_at 1 82800 7 7])).
         v_user_ID r = 1 \<and> v_GEOID r = 20"
    using every [of "box_tract 20 (0, 0, 10, 10)"] unfolding z sel by simp
  have e10: "\<exists>r \<in> set (count_visits (spatial_join within_box [ping_at 1 82800 7 7] sample_tracts)
                       (calculate_days_available [ping_at 1 82800 7 7])).
         v_user_ID r = 1 \<and> v_GEOID r = 10"
    using every [of "box_tract 10 (5, 5, 20, 20)"] unfolding z sel by simp
  from z overlap_joined c e20 e10 show ?thesis by blast
qed

end
